theory Spec2Isabelle
  imports Complex_Main "HOL-Library.Word"
begin

unbundle bit_operations_syntax

section \<open>Data model of \<open>ELRS_Serial.py\<close>\<close>

text \<open>
  A Python \<open>bytes\<close> or \<open>bytearray\<close> is a list of 8-bit words; reading an element
  gives a Python integer (\<open>uint\<close>). Python integers are unbounded (\<open>int\<close>).
\<close>

type_synonym byte = "8 word"

text \<open>The exceptions the modelled code can raise.\<close>

datatype error = IndexError | ValueError | StructError | OverflowError

text \<open>The dataclass \<open>LinkStats\<close>.\<close>

record LinkStats =
  rssi1 :: int
  rssi2 :: int
  link_quality :: int
  snr :: int

text \<open>
  The attributes of a \<open>CRSFReceiver\<close> that the frame codec reads and writes. The serial
  port is outside the model: the bytes it delivers are an argument of \<open>update\<close>, the frame
  it is given is the result of \<open>send_battery_telemetry\<close>.
\<close>

record CRSFReceiver =
  input_buffer :: "byte list"
  channels :: "nat \<rightharpoonup> int"
  link_stats :: "LinkStats option"

text \<open>
  A method that mutates the receiver either returns (\<open>Done\<close>) or raises (\<open>Raised\<close>); in
  both cases the receiver object lives on, with whatever was written before the exception.
\<close>

datatype outcome = Done CRSFReceiver | Raised error CRSFReceiver

fun state_of :: "outcome \<Rightarrow> CRSFReceiver" where
  "state_of (Done s) = s"
| "state_of (Raised e s) = s"

definition CRSF_SYNC :: int where
  "CRSF_SYNC = 0xC8"

definition CRSF_TELEMETRY_SYNC :: int where
  "CRSF_TELEMETRY_SYNC = 0xC8"

text \<open>The members of \<open>PacketTypes\<close> that the code refers to.\<close>

definition BATTERY_SENSOR :: int where
  "BATTERY_SENSOR = 0x08"

definition LINK_STATISTICS :: int where
  "LINK_STATISTICS = 0x14"

definition RC_CHANNELS_PACKED :: int where
  "RC_CHANNELS_PACKED = 0x16"

text \<open>
  \<open>__init__\<close>: an empty buffer, \<open>{i: 1500 for i in range(1, 17)}\<close> and no link statistics.
\<close>

definition init :: CRSFReceiver where
  "init = \<lparr>input_buffer = [],
           channels = map_of (map (\<lambda>i. (i, 1500)) [1..<17]),
           link_stats = None\<rparr>"

text \<open>Indexing \<open>data[i]\<close> with a non-negative index: \<open>IndexError\<close> past the end.\<close>

definition getitem :: "byte list \<Rightarrow> nat \<Rightarrow> error + int" where
  "getitem data i = (if i < length data then Inr (uint (data ! i)) else Inl IndexError)"

section \<open>Python floats\<close>

text \<open>
  A Python float is an IEEE 754 binary64 value: \<open>Finite m e\<close> stands for \<open>m * 2 ^ e\<close>,
  \<open>Infinite s\<close> for the infinity of sign \<open>s\<close> (\<open>True\<close> is negative). The sign of a zero is
  not kept: \<open>int()\<close>, the only reader of floats in this program, does not see it.
\<close>

datatype pyfloat = Finite int int | Infinite bool | NaN

text \<open>The number of binary digits of a positive integer.\<close>

function bitlen :: "int \<Rightarrow> int" where
  "bitlen n = (if n \<le> 0 then 0 else 1 + bitlen (n div 2))"
  by pat_completeness auto
termination
  by (relation "measure nat") auto

declare bitlen.simps [simp del]

text \<open>
  Rounding of the exact value \<open>m * 2 ^ e\<close> to binary64, to nearest with ties to even:
  the significand keeps 53 bits, the exponent of the last place is at least \<open>-1074\<close>
  (subnormal numbers), and a rounded magnitude of \<open>2 ^ 1024\<close> or more is an infinity.
\<close>

definition round_double :: "int \<Rightarrow> int \<Rightarrow> pyfloat" where
  "round_double m e =
     (let a = \<bar>m\<bar>;
          d = max (bitlen a - 53) (- 1074 - e)
      in if d \<le> 0 then
           (if 1024 < bitlen a + e then Infinite (m < 0) else Finite m e)
         else
           let q = a div 2 ^ nat d;
               r = a mod 2 ^ nat d;
               h = 2 ^ (nat d - 1);
               q' = (if h < r \<or> (r = h \<and> odd q) then q + 1 else q)
           in if 1024 < bitlen q' + (e + d) then Infinite (m < 0)
              else Finite (sgn m * q') (e + d))"

text \<open>The conversion of an integer operand in mixed arithmetic.\<close>

definition float_of_int :: "int \<Rightarrow> pyfloat" where
  "float_of_int n = round_double n 0"

fun fmul :: "pyfloat \<Rightarrow> pyfloat \<Rightarrow> pyfloat" where
  "fmul (Finite m1 e1) (Finite m2 e2) = round_double (m1 * m2) (e1 + e2)"
| "fmul (Finite m e) (Infinite s) = (if m = 0 then NaN else Infinite (s \<noteq> (m < 0)))"
| "fmul (Infinite s) (Finite m e) = (if m = 0 then NaN else Infinite (s \<noteq> (m < 0)))"
| "fmul (Infinite s) (Infinite t) = Infinite (s \<noteq> t)"
| "fmul NaN y = NaN"
| "fmul x NaN = NaN"

fun fadd :: "pyfloat \<Rightarrow> pyfloat \<Rightarrow> pyfloat" where
  "fadd (Finite m1 e1) (Finite m2 e2) =
     (let e = min e1 e2
      in round_double (m1 * 2 ^ nat (e1 - e) + m2 * 2 ^ nat (e2 - e)) e)"
| "fadd (Finite m e) (Infinite s) = Infinite s"
| "fadd (Infinite s) (Finite m e) = Infinite s"
| "fadd (Infinite s) (Infinite t) = (if s = t then Infinite s else NaN)"
| "fadd NaN y = NaN"
| "fadd x NaN = NaN"

text \<open>\<open>int(x)\<close> truncates towards zero; it raises on an infinity and on a NaN.\<close>

fun py_int :: "pyfloat \<Rightarrow> error + int" where
  "py_int (Finite m e) =
     Inr (if 0 \<le> e then m * 2 ^ nat e else sgn m * (\<bar>m\<bar> div 2 ^ nat (- e)))"
| "py_int (Infinite s) = Inl OverflowError"
| "py_int NaN = Inl ValueError"

text \<open>
  The literal \<open>0.62\<close> is the binary64 value nearest to 62/100,
  \<open>0x1.3d70a3d70a3d7p-1 = 5584463537939415 / 2 ^ 53\<close>; the literal \<open>11.8\<close> of the
  usage example is \<open>0x1.799999999999ap+3 = 3321404725185741 / 2 ^ 48\<close>.
\<close>

definition lit_0_62 :: pyfloat where
  "lit_0_62 = Finite 5584463537939415 (- 53)"

definition lit_11_8 :: pyfloat where
  "lit_11_8 = Finite 3321404725185741 (- 48)"

definition lit_0_0 :: pyfloat where
  "lit_0_0 = Finite 0 0"

section \<open>CRC8\<close>

text \<open>The body of \<open>for _ in range(8)\<close> in \<open>_crc8_dvb_s2\<close>, on Python's unbounded integers.\<close>

fun crc8_bits :: "nat \<Rightarrow> int \<Rightarrow> int" where
  "crc8_bits 0 crc = crc"
| "crc8_bits (Suc n) crc =
     crc8_bits n (if crc AND 0x80 \<noteq> 0 then push_bit 1 crc XOR 0xD5 else push_bit 1 crc)"

definition crc8_dvb_s2 :: "int \<Rightarrow> int \<Rightarrow> int" where
  "crc8_dvb_s2 crc a = crc8_bits 8 (crc XOR a) AND 0xFF"

definition crc8_data :: "byte list \<Rightarrow> int" where
  "crc8_data data = foldl (\<lambda>crc a. crc8_dvb_s2 crc (uint a)) 0 data"

text \<open>
  The DVB-S2 CRC8 as the specification words it: an 8-bit accumulator, starting from 0;
  each byte is XORed in, then eight times the accumulator is shifted left by one bit, and
  XORed with \<open>0xD5\<close> when its bit 7 was set.
\<close>

fun crc8_ref_bits :: "nat \<Rightarrow> byte \<Rightarrow> byte" where
  "crc8_ref_bits 0 acc = acc"
| "crc8_ref_bits (Suc n) acc =
     crc8_ref_bits n (if bit acc 7 then push_bit 1 acc XOR 0xD5 else push_bit 1 acc)"

definition crc8_ref_byte :: "byte \<Rightarrow> byte \<Rightarrow> byte" where
  "crc8_ref_byte acc a = crc8_ref_bits 8 (acc XOR a)"

definition crc8_ref :: "byte list \<Rightarrow> byte" where
  "crc8_ref data = foldl crc8_ref_byte 0 data"

text \<open>
  \<open>_validate_frame\<close>: \<open>frame[2:-1]\<close> is the frame without its first two elements and
  without its last one; \<open>frame[-1]\<close> raises on an empty frame.
\<close>

definition validate_frame :: "byte list \<Rightarrow> error + bool" where
  "validate_frame frame =
     (if frame = [] then Inl IndexError
      else Inr (crc8_data (butlast (drop 2 frame)) = uint (last frame)))"

section \<open>Payload decoders\<close>

text \<open>
  The body of the loop of \<open>_decode_channels\<close> up to the extraction of the 11 bits: the
  first byte is read unguarded, the second and the third only when they are there.
\<close>

definition channel_value :: "byte list \<Rightarrow> nat \<Rightarrow> error + int" where
  "channel_value channel_data i =
     (let bits = i * 11;
          byte_index = bits div 8;
          bit_index = bits mod 8
      in if length channel_data \<le> byte_index then Inl IndexError
         else
           let raw = uint (channel_data ! byte_index);
               raw = (if byte_index + 1 < length channel_data
                      then raw OR push_bit 8 (uint (channel_data ! (byte_index + 1)))
                      else raw);
               raw = (if byte_index + 2 < length channel_data
                      then raw OR push_bit 16 (uint (channel_data ! (byte_index + 2)))
                      else raw)
           in Inr (drop_bit bit_index raw AND 0x07FF))"

text \<open>The conversion \<open>int(value * 0.62 + 881)\<close>.\<close>

definition to_us :: "int \<Rightarrow> error + int" where
  "to_us v = py_int (fadd (fmul (float_of_int v) lit_0_62) (float_of_int 881))"

text \<open>
  The loop \<open>for i in range(16)\<close>: an exception leaves the channels written so far in
  place.
\<close>

fun decode_channels_loop ::
  "nat list \<Rightarrow> byte list \<Rightarrow> (nat \<rightharpoonup> int) \<Rightarrow> error option \<times> (nat \<rightharpoonup> int)" where
  "decode_channels_loop [] channel_data chans = (None, chans)"
| "decode_channels_loop (i # rest) channel_data chans =
     (case channel_value channel_data i of
        Inl e \<Rightarrow> (Some e, chans)
      | Inr v \<Rightarrow>
          (case to_us v of
             Inl e \<Rightarrow> (Some e, chans)
           | Inr us \<Rightarrow> decode_channels_loop rest channel_data (chans(i + 1 \<mapsto> us))))"

definition decode_channels :: "byte list \<Rightarrow> CRSFReceiver \<Rightarrow> outcome" where
  "decode_channels data self =
     (case decode_channels_loop [0..<16] (drop 3 data) (channels self) of
        (None, chans) \<Rightarrow> Done (self\<lparr>channels := chans\<rparr>)
      | (Some e, chans) \<Rightarrow> Raised e (self\<lparr>channels := chans\<rparr>))"

text \<open>
  \<open>_decode_link_stats\<close>: the four reads come before the assignment, so an exception
  leaves the stored record as it was.
\<close>

definition decode_link_stats :: "byte list \<Rightarrow> CRSFReceiver \<Rightarrow> outcome" where
  "decode_link_stats data self =
     (case getitem data 3 of
        Inl e \<Rightarrow> Raised e self
      | Inr b3 \<Rightarrow>
     (case getitem data 4 of
        Inl e \<Rightarrow> Raised e self
      | Inr b4 \<Rightarrow>
     (case getitem data 5 of
        Inl e \<Rightarrow> Raised e self
      | Inr b5 \<Rightarrow>
     (case getitem data 6 of
        Inl e \<Rightarrow> Raised e self
      | Inr b6 \<Rightarrow>
          Done (self\<lparr>link_stats := Some
            \<lparr>rssi1 = - 1 * b3,
             rssi2 = - 1 * b4,
             link_quality = b5,
             snr = (if b6 < 128 then b6 else b6 - 256)\<rparr>\<rparr>)))))"

definition handle_packet :: "int \<Rightarrow> byte list \<Rightarrow> CRSFReceiver \<Rightarrow> outcome" where
  "handle_packet packet_type data self =
     (if packet_type = RC_CHANNELS_PACKED then decode_channels data self
      else if packet_type = LINK_STATISTICS then decode_link_stats data self
      else Done self)"

section \<open>Telemetry encoder\<close>

text \<open>
  \<open>struct.pack('>HHHB', ...)\<close>: three unsigned 16-bit fields, big-endian, and one unsigned
  byte; a value outside its field raises \<open>struct.error\<close>.
\<close>

definition pack_H :: "int \<Rightarrow> error + byte list" where
  "pack_H n =
     (if 0 \<le> n \<and> n \<le> 65535 then Inr [word_of_int (n div 256), word_of_int (n mod 256)]
      else Inl StructError)"

definition pack_B :: "int \<Rightarrow> error + byte list" where
  "pack_B n = (if 0 \<le> n \<and> n \<le> 255 then Inr [word_of_int n] else Inl StructError)"

definition pack_HHHB :: "int \<Rightarrow> int \<Rightarrow> int \<Rightarrow> int \<Rightarrow> error + byte list" where
  "pack_HHHB a b c d =
     (case pack_H a of Inl e \<Rightarrow> Inl e | Inr x \<Rightarrow>
     (case pack_H b of Inl e \<Rightarrow> Inl e | Inr y \<Rightarrow>
     (case pack_H c of Inl e \<Rightarrow> Inl e | Inr z \<Rightarrow>
     (case pack_B d of Inl e \<Rightarrow> Inl e | Inr w \<Rightarrow> Inr (x @ y @ z @ w)))))"

text \<open>
  \<open>bytearray([...])\<close> and \<open>frame.append(x)\<close> raise \<open>ValueError\<close> on an integer outside
  \<open>range(256)\<close>.
\<close>

definition bytearray :: "int list \<Rightarrow> error + byte list" where
  "bytearray xs =
     (if \<forall>x \<in> set xs. 0 \<le> x \<and> x < 256 then Inr (map word_of_int xs) else Inl ValueError)"

definition append_byte :: "byte list \<Rightarrow> int \<Rightarrow> error + byte list" where
  "append_byte frame x =
     (if 0 \<le> x \<and> x < 256 then Inr (frame @ [word_of_int x]) else Inl ValueError)"

text \<open>
  The framing steps of \<open>send_battery_telemetry\<close> (sync, length, type, payload, CRC of type
  and payload), with the packet type and the payload as parameters.
\<close>

definition build_frame :: "int \<Rightarrow> byte list \<Rightarrow> error + byte list" where
  "build_frame packet_type payload =
     (case bytearray [CRSF_TELEMETRY_SYNC, int (length payload) + 2, packet_type] of
        Inl e \<Rightarrow> Inl e
      | Inr header \<Rightarrow>
          (let frame = header @ payload;
               crc = crc8_data (drop 2 frame)
           in append_byte frame crc))"

text \<open>
  \<open>send_battery_telemetry\<close>, up to the frame that is handed to \<open>serial.write\<close>.
\<close>

definition send_battery_telemetry ::
  "pyfloat \<Rightarrow> pyfloat \<Rightarrow> int \<Rightarrow> int \<Rightarrow> error + byte list" where
  "send_battery_telemetry voltage current mah remaining_percent =
     (case py_int (fmul voltage (float_of_int 10)) of
        Inl e \<Rightarrow> Inl e
      | Inr voltage_scaled \<Rightarrow>
     (case py_int (fmul current (float_of_int 10)) of
        Inl e \<Rightarrow> Inl e
      | Inr current_scaled \<Rightarrow>
     (case pack_HHHB voltage_scaled current_scaled mah remaining_percent of
        Inl e \<Rightarrow> Inl e
      | Inr payload \<Rightarrow> build_frame BATTERY_SENSOR payload)))"

section \<open>Frame synchronizer\<close>

text \<open>
  The loop \<open>while len(self.input_buffer) > 2\<close> of \<open>update\<close>. \<open>pop(0)\<close> on a buffer of
  more than two bytes is \<open>tl\<close>; \<open>break\<close> and the end of the loop return; an exception of
  \<open>_handle_packet\<close> leaves the loop with the frame already removed from the buffer.
\<close>

function update_loop :: "CRSFReceiver \<Rightarrow> outcome" where
  "update_loop self =
     (let buf = input_buffer self
      in if 2 < length buf then
           if uint (buf ! 0) \<noteq> CRSF_SYNC then update_loop (self\<lparr>input_buffer := tl buf\<rparr>)
           else
             let len = uint (buf ! 1);
                 expected_len = len + 2
             in if 64 < expected_len \<or> expected_len < 4
                then update_loop (self\<lparr>input_buffer := tl buf\<rparr>)
                else if expected_len \<le> int (length buf) then
                  (case validate_frame (take (nat expected_len) buf) of
                     Inl e \<Rightarrow> Raised e (self\<lparr>input_buffer := drop (nat expected_len) buf\<rparr>)
                   | Inr ok \<Rightarrow>
                       if ok then
                         (case handle_packet (uint (take (nat expected_len) buf ! 2))
                                 (take (nat expected_len) buf)
                                 (self\<lparr>input_buffer := drop (nat expected_len) buf\<rparr>) of
                            Done s \<Rightarrow> update_loop s
                          | Raised e s \<Rightarrow> Raised e s)
                       else update_loop (self\<lparr>input_buffer := drop (nat expected_len) buf\<rparr>))
                else Done self
         else Done self)"
  by pat_completeness auto
termination
proof (relation "measure (\<lambda>self. length (input_buffer self))")
  show "wf (measure (\<lambda>self. length (input_buffer self)))"
    by simp
next
  fix self :: CRSFReceiver and buf
  assume "buf = input_buffer self" "2 < length buf"
  then show "(self\<lparr>input_buffer := tl buf\<rparr>, self) \<in> measure (\<lambda>self. length (input_buffer self))"
    by simp
next
  fix self :: CRSFReceiver and buf
  assume "buf = input_buffer self" "2 < length buf"
  then show "(self\<lparr>input_buffer := tl buf\<rparr>, self) \<in> measure (\<lambda>self. length (input_buffer self))"
    by simp
next
  fix self :: CRSFReceiver and buf len expected_len x2 and s :: CRSFReceiver
  assume a: "buf = input_buffer self" "len = uint (buf ! 1)" "expected_len = len + 2"
    "\<not> (64 < expected_len \<or> expected_len < 4)"
    "expected_len \<le> int (length buf)"
    and h: "handle_packet (uint (take (nat expected_len) buf ! 2)) (take (nat expected_len) buf)
         (self\<lparr>input_buffer := drop (nat expected_len) buf\<rparr>) = Done s"
  from h have "input_buffer s = drop (nat expected_len) buf"
    by (auto simp: handle_packet_def decode_channels_def decode_link_stats_def
        split: if_splits sum.splits prod.splits option.splits)
  with a show "(s, self) \<in> measure (\<lambda>self. length (input_buffer self))"
    by simp arith
next
  fix self :: CRSFReceiver and buf len expected_len
  assume "buf = input_buffer self" "len = uint (buf ! 1)" "expected_len = len + 2"
    "\<not> (64 < expected_len \<or> expected_len < 4)"
    "expected_len \<le> int (length buf)"
  then show "(self\<lparr>input_buffer := drop (nat expected_len) buf\<rparr>, self)
      \<in> measure (\<lambda>self. length (input_buffer self))"
    by simp arith
qed

declare update_loop.simps [simp del]

text \<open>
  \<open>update\<close>: the bytes that the serial port delivers in this cycle (none when nothing is
  waiting) are appended to the buffer, then the loop runs.
\<close>

definition update :: "byte list \<Rightarrow> CRSFReceiver \<Rightarrow> outcome" where
  "update incoming self = update_loop (self\<lparr>input_buffer := input_buffer self @ incoming\<rparr>)"

definition get_channels :: "CRSFReceiver \<Rightarrow> (nat \<rightharpoonup> int)" where
  "get_channels self = channels self"

definition get_link_stats :: "CRSFReceiver \<Rightarrow> LinkStats option" where
  "get_link_stats self = link_stats self"

section \<open>Frames\<close>

text \<open>
  A candidate frame is what the synchronizer cuts out of the buffer: it starts with the
  sync byte and its length byte counts the bytes after itself, for a total of 4 to 64
  bytes. A valid frame is a candidate frame that \<open>_validate_frame\<close> accepts.
\<close>

definition candidate_frame :: "byte list \<Rightarrow> bool" where
  "candidate_frame F \<longleftrightarrow>
     4 \<le> length F \<and> length F \<le> 64 \<and> uint (F ! 0) = CRSF_SYNC \<and>
     uint (F ! 1) + 2 = int (length F)"

definition valid_frame :: "byte list \<Rightarrow> bool" where
  "valid_frame F \<longleftrightarrow> candidate_frame F \<and> validate_frame F = Inr True"

section \<open>The CRC8 engine\<close>

lemma bit7_iff: "(x AND 0x80 \<noteq> 0) = bit (word_of_int x :: byte) 7" for x :: int
proof -
  have "x AND 2 ^ 7 = 0 \<longleftrightarrow> \<not> bit x 7"
    by (rule and_exp_eq_0_iff_not_bit)
  then show ?thesis
    by (simp add: bit_word_of_int_iff)
qed

lemma crc8_bits_word:
  "(word_of_int (crc8_bits n x) :: byte) = crc8_ref_bits n (word_of_int x)"
proof (induction n arbitrary: x)
  case 0
  show ?case by simp
next
  case (Suc n)
  have step: "(word_of_int (if x AND 0x80 \<noteq> 0 then push_bit 1 x XOR 0xD5 else push_bit 1 x) :: byte)
      = (if bit (word_of_int x :: byte) 7 then push_bit 1 (word_of_int x) XOR 0xD5
         else push_bit 1 (word_of_int x))"
    by (simp only: bit7_iff) (simp add: of_int_push_bit of_int_xor_eq)
  show ?case
    by (simp only: crc8_bits.simps crc8_ref_bits.simps Suc.IH step)
qed

lemma crc8_dvb_s2_word:
  "crc8_dvb_s2 crc a = uint (crc8_ref_byte (word_of_int crc) (word_of_int a))"
proof -
  have "crc8_bits 8 (crc XOR a) AND 0xFF = take_bit 8 (crc8_bits 8 (crc XOR a))"
    by (simp add: take_bit_eq_mask mask_eq_exp_minus_1)
  also have "\<dots> = uint (word_of_int (crc8_bits 8 (crc XOR a)) :: byte)"
    by (simp add: uint_word_of_int_eq)
  finally show ?thesis
    by (simp add: crc8_dvb_s2_def crc8_ref_byte_def crc8_bits_word of_int_xor_eq)
qed

lemma crc8_fold_word:
  "foldl (\<lambda>crc a. crc8_dvb_s2 crc (uint a)) (uint w) bs = uint (foldl crc8_ref_byte w bs)"
  by (induction bs arbitrary: w) (simp_all add: crc8_dvb_s2_word)

lemma crc8_data_word: "crc8_data bs = uint (crc8_ref bs)"
  using crc8_fold_word [of 0 bs] by (simp add: crc8_data_def crc8_ref_def)

lemma crc8_data_range: "0 \<le> crc8_data bs \<and> crc8_data bs < 256"
  using uint_bounded [of "crc8_ref bs"] by (simp add: crc8_data_word)

text \<open>
  Claim C4. For every byte sequence the result of the CRC8 engine lies in \<open>[0, 255]\<close> and
  equals the DVB-S2 reference (accumulator 0, each byte XORed in, then eight shift steps
  with \<open>0xD5\<close> XORed in when bit 7 was set, on 8 bits); the CRC of the empty sequence is 0.
  The code masks once, after the eight steps, the reference at every step.
\<close>

theorem crc8_matches_reference:
  "0 \<le> crc8_data bs \<and> crc8_data bs \<le> 255 \<and> crc8_data bs = uint (crc8_ref bs)
     \<and> crc8_data [] = 0"
proof -
  have "uint (crc8_ref bs) < 2 ^ 8"
    using uint_bounded [of "crc8_ref bs"] by simp
  then show ?thesis
    by (simp add: crc8_data_word) (simp add: crc8_ref_def)
qed

section \<open>The synchronizer loop, step by step\<close>

lemma decode_channels_buffer:
  "input_buffer (state_of (decode_channels data self)) = input_buffer self"
  by (simp add: decode_channels_def split: prod.splits option.splits)

lemma decode_link_stats_buffer:
  "input_buffer (state_of (decode_link_stats data self)) = input_buffer self"
  by (simp add: decode_link_stats_def split: sum.splits)

lemma handle_packet_buffer:
  "input_buffer (state_of (handle_packet ty data self)) = input_buffer self"
  by (simp add: handle_packet_def decode_channels_buffer decode_link_stats_buffer)

lemma update_loop_short:
  "length (input_buffer self) \<le> 2 \<Longrightarrow> update_loop self = Done self"
  by (subst update_loop.simps) simp

lemma update_loop_drop:
  "2 < length (input_buffer self) \<Longrightarrow> uint (input_buffer self ! 0) \<noteq> CRSF_SYNC \<Longrightarrow>
   update_loop self = update_loop (self\<lparr>input_buffer := tl (input_buffer self)\<rparr>)"
  by (subst update_loop.simps) simp

lemma update_loop_bad_length:
  "2 < length (input_buffer self) \<Longrightarrow> uint (input_buffer self ! 0) = CRSF_SYNC \<Longrightarrow>
   64 < uint (input_buffer self ! 1) + 2 \<or> uint (input_buffer self ! 1) + 2 < 4 \<Longrightarrow>
   update_loop self = update_loop (self\<lparr>input_buffer := tl (input_buffer self)\<rparr>)"
  by (subst update_loop.simps) (simp add: Let_def)

lemma update_loop_incomplete:
  "uint (input_buffer self ! 0) = CRSF_SYNC \<Longrightarrow>
   \<not> (64 < uint (input_buffer self ! 1) + 2 \<or> uint (input_buffer self ! 1) + 2 < 4) \<Longrightarrow>
   int (length (input_buffer self)) < uint (input_buffer self ! 1) + 2 \<Longrightarrow>
   update_loop self = Done self"
  by (subst update_loop.simps) (simp add: Let_def)

lemma update_loop_frame:
  assumes "candidate_frame F" and "input_buffer self = F @ rest"
  shows "update_loop self =
     (case validate_frame F of
        Inl e \<Rightarrow> Raised e (self\<lparr>input_buffer := rest\<rparr>)
      | Inr ok \<Rightarrow>
          if ok then
            (case handle_packet (uint (F ! 2)) F (self\<lparr>input_buffer := rest\<rparr>) of
               Done s \<Rightarrow> update_loop s
             | Raised e s \<Rightarrow> Raised e s)
          else update_loop (self\<lparr>input_buffer := rest\<rparr>))"
proof -
  from assms(1) have len: "4 \<le> length F" "length F \<le> 64"
    and sync: "uint (F ! 0) = CRSF_SYNC" and lb: "uint (F ! 1) + 2 = int (length F)"
    by (simp_all add: candidate_frame_def)
  from len have nth: "(F @ rest) ! 0 = F ! 0" "(F @ rest) ! 1 = F ! 1"
    by (auto simp add: nth_append)
  from lb have e: "uint (F ! Suc 0) = int (length F) - 2"
    by simp
  show ?thesis
    by (subst update_loop.simps) (use len sync e nth assms(2) in
       \<open>simp add: Let_def cong: sum.case_cong outcome.case_cong if_cong\<close>)
qed

lemma update_loop_after_handle:
  assumes "input_buffer self = []"
  shows "(case handle_packet ty F self of Done s \<Rightarrow> update_loop s | Raised e s \<Rightarrow> Raised e s)
           = handle_packet ty F self"
proof (cases "handle_packet ty F self")
  case (Done s)
  with handle_packet_buffer [of ty F self] assms have "input_buffer s = []" by simp
  with Done show ?thesis by (simp add: update_loop_short)
next
  case (Raised e s)
  then show ?thesis by simp
qed

lemma update_loop_valid_frame:
  assumes "valid_frame F" and "input_buffer self = F"
  shows "update_loop self = handle_packet (uint (F ! 2)) F (self\<lparr>input_buffer := []\<rparr>)"
proof -
  from assms(1) have c: "candidate_frame F" and v: "validate_frame F = Inr True"
    by (simp_all add: valid_frame_def)
  from assms(2) have "input_buffer self = F @ []" by simp
  from update_loop_frame [OF c this] v show ?thesis
    by (simp add: update_loop_after_handle)
qed

lemma buffer_empty_idem: "input_buffer s = [] \<Longrightarrow> s\<lparr>input_buffer := []\<rparr> = s"
  by (cases s) simp

lemma uint_crc8_byte: "uint (word_of_int (crc8_data bs) :: byte) = crc8_data bs"
  using crc8_data_range [of bs] by (simp add: uint_word_of_int_eq take_bit_int_eq_self)

section \<open>Concrete frames\<close>

lemma crc8_battery_example: "crc8_data [0x08, 0x00, 0x76, 0x00, 0x00, 0x00, 0x00, 100] = 251"
  by code_simp

lemma crc8_link_example: "crc8_data [0x14, 50, 60, 90, 10] = 64"
  by code_simp

lemma crc8_link_short: "crc8_data [0x14] = 172"
  by code_simp

lemma valid_frame_battery_example:
  "valid_frame [0xC8, 9, 0x08, 0x00, 0x76, 0x00, 0x00, 0x00, 0x00, 100, 251]"
  by (simp add: valid_frame_def candidate_frame_def CRSF_SYNC_def validate_frame_def
      crc8_battery_example)

lemma valid_frame_link_example: "valid_frame [0xC8, 6, 0x14, 50, 60, 90, 10, 64]"
  by (simp add: valid_frame_def candidate_frame_def CRSF_SYNC_def validate_frame_def
      crc8_link_example)

lemma valid_frame_link_short: "valid_frame [0xC8, 2, 0x14, 172]"
  by (simp add: valid_frame_def candidate_frame_def CRSF_SYNC_def validate_frame_def
      crc8_link_short)

lemma handle_link_example:
  "handle_packet 0x14 [0xC8, 6, 0x14, 50, 60, 90, 10, 64] self =
     Done (self\<lparr>link_stats := Some
       \<lparr>rssi1 = - 50, rssi2 = - 60, link_quality = 90, snr = 10\<rparr>\<rparr>)"
  by (simp add: handle_packet_def LINK_STATISTICS_def RC_CHANNELS_PACKED_def
      decode_link_stats_def getitem_def)

section \<open>Frame round trip\<close>

text \<open>
  Claim C5. For every type byte and every payload with \<open>2 + len(payload) + 2 \<le> 64\<close>, the
  frame built as sync, \<open>len(payload) + 2\<close>, type, payload, CRC8 of type and payload is
  built without error and is accepted by the validator.
\<close>

theorem frame_round_trip:
  assumes "0 \<le> ty" and "ty < 256" and "2 + length payload + 2 \<le> 64"
  shows "\<exists>frame. build_frame ty payload = Inr frame \<and>
     frame = [0xC8, word_of_int (int (length payload) + 2), word_of_int ty] @ payload @
             [word_of_int (crc8_data (word_of_int ty # payload))] \<and>
     validate_frame frame = Inr True"
  using assms
  by (simp add: build_frame_def bytearray_def append_byte_def CRSF_TELEMETRY_SYNC_def
      Let_def crc8_data_range validate_frame_def butlast_append uint_crc8_byte)

theorem frame_round_trip_witness:
  "(0::int) \<le> 8 \<and> (8::int) < 256 \<and> 2 + length [0, 0x76, 0, 0, 0, 0, 100 :: byte] + 2 \<le> 64 \<and>
   (\<exists>frame. build_frame 8 [0, 0x76, 0, 0, 0, 0, 100] = Inr frame \<and>
      validate_frame frame = Inr True)"
  using frame_round_trip [of 8 "[0, 0x76, 0, 0, 0, 0, 100]"] by simp

section \<open>Resynchronization\<close>

text \<open>
  Claim C6. For every valid frame \<open>F\<close>, fed to a receiver with an empty buffer: the stream
  \<open>[0x00, 0x00] @ F\<close> gives the same outcome as \<open>F\<close> alone, that outcome is the one
  of exactly one call of \<open>_handle_packet\<close>, on \<open>F\<close>, and the two bytes before the frame
  are dropped one at a time.
\<close>

theorem resync_after_garbage:
  assumes "valid_frame F" and "input_buffer self = []"
  shows "update ([0, 0] @ F) self = update F self \<and>
     update F self = handle_packet (uint (F ! 2)) F self \<and>
     update_loop (self\<lparr>input_buffer := 0 # 0 # F\<rparr>) = update_loop (self\<lparr>input_buffer := 0 # F\<rparr>) \<and>
     update_loop (self\<lparr>input_buffer := 0 # F\<rparr>) = update_loop (self\<lparr>input_buffer := F\<rparr>)"
proof -
  from assms(1) have len: "4 \<le> length F"
    by (simp add: valid_frame_def candidate_frame_def)
  from len have ne: "F \<noteq> []"
    by auto
  have d1: "update_loop (self\<lparr>input_buffer := 0 # 0 # F\<rparr>) = update_loop (self\<lparr>input_buffer := 0 # F\<rparr>)"
    using ne update_loop_drop [of "self\<lparr>input_buffer := 0 # 0 # F\<rparr>"]
    by (simp add: CRSF_SYNC_def)
  have d2: "update_loop (self\<lparr>input_buffer := 0 # F\<rparr>) = update_loop (self\<lparr>input_buffer := F\<rparr>)"
    using len update_loop_drop [of "self\<lparr>input_buffer := 0 # F\<rparr>"]
    by (auto simp: CRSF_SYNC_def)
  have self: "self\<lparr>input_buffer := []\<rparr> = self"
    using assms(2) by (rule buffer_empty_idem)
  have one: "update_loop (self\<lparr>input_buffer := F\<rparr>) = handle_packet (uint (F ! 2)) F self"
    using update_loop_valid_frame [OF assms(1), of "self\<lparr>input_buffer := F\<rparr>"] self
    by simp
  show ?thesis
    using d1 d2 one assms(2) by (simp add: update_def)
qed

theorem resync_after_garbage_witness:
  "valid_frame [0xC8, 6, 0x14, 50, 60, 90, 10, 64] \<and> input_buffer init = [] \<and>
   update ([0, 0] @ [0xC8, 6, 0x14, 50, 60, 90, 10, 64]) init =
     Done (init\<lparr>link_stats := Some
       \<lparr>rssi1 = - 50, rssi2 = - 60, link_quality = 90, snr = 10\<rparr>\<rparr>)"
proof -
  have b: "input_buffer init = []"
    by (simp add: init_def)
  show ?thesis
    using resync_after_garbage [OF valid_frame_link_example b] valid_frame_link_example b
    by (simp add: handle_link_example)
qed

section \<open>Frames split over two cycles\<close>

text \<open>
  Claim C7. For every valid frame \<open>F\<close> and every \<open>k\<close> with \<open>0 \<le> k \<le> len(F)\<close>, feeding
  \<open>F[0:k]\<close> in one cycle and \<open>F[k:]\<close> in the next leaves the receiver (channels, link
  statistics and buffer), started with an empty buffer, in the state that feeding \<open>F\<close> in
  one cycle leaves it in.
\<close>

theorem split_frame_equivalence:
  assumes "valid_frame F" and "input_buffer self = []" and "k \<le> length F"
  shows "state_of (update (drop k F) (state_of (update (take k F) self)))
       = state_of (update F self)"
proof -
  from assms(1) have c: "candidate_frame F"
    by (simp add: valid_frame_def)
  then have len: "4 \<le> length F" "length F \<le> 64"
    and sync: "uint (F ! 0) = CRSF_SYNC" and lb: "uint (F ! 1) + 2 = int (length F)"
    by (simp_all add: candidate_frame_def)
  show ?thesis
  proof (cases "k = length F")
    case True
    let ?s = "state_of (update F self)"
    have "update F self = handle_packet (uint (F ! 2)) F self"
      using update_loop_valid_frame [OF assms(1), of "self\<lparr>input_buffer := F\<rparr>"] assms(2)
      by (simp add: update_def buffer_empty_idem)
    then have "input_buffer ?s = []"
      using handle_packet_buffer [of "uint (F ! 2)" F self] assms(2) by simp
    then have "update [] ?s = Done ?s"
      by (simp add: update_def update_loop_short)
    with True show ?thesis by simp
  next
    case False
    with assms(3) have k: "k < length F" by simp
    let ?p = "self\<lparr>input_buffer := take k F\<rparr>"
    have part: "update_loop ?p = Done ?p"
    proof (cases "k \<le> 2")
      case True
      then show ?thesis by (simp add: update_loop_short)
    next
      case False
      then have n: "take k F ! 0 = F ! 0" "take k F ! 1 = F ! 1"
        by simp_all
      show ?thesis
        using k len sync lb n by (intro update_loop_incomplete) simp_all
    qed
    have "update (take k F) self = Done ?p"
      using part assms(2) by (simp add: update_def)
    then show ?thesis
      by (simp add: update_def assms(2))
  qed
qed

theorem split_frame_equivalence_witness:
  "valid_frame [0xC8, 6, 0x14, 50, 60, 90, 10, 64] \<and> input_buffer init = [] \<and>
   3 \<le> length [0xC8, 6, 0x14, 50, 60, 90, 10, 64 :: byte] \<and>
   state_of (update [50, 60, 90, 10, 64] (state_of (update [0xC8, 6, 0x14] init))) =
     state_of (update [0xC8, 6, 0x14, 50, 60, 90, 10, 64] init)"
proof -
  have b: "input_buffer init = []"
    by (simp add: init_def)
  show ?thesis
    using split_frame_equivalence [OF valid_frame_link_example b, of 3]
      valid_frame_link_example b
    by simp
qed

section \<open>Link statistics\<close>

text \<open>
  Claim C8, as stated, fails: the 4-byte frame \<open>[0xC8, 2, 0x14, 172]\<close> is a validated
  LINK_STATISTICS frame, and \<open>_decode_link_stats\<close> raises \<open>IndexError\<close> on it and leaves
  the stored record as it was.
\<close>

theorem link_stats_short_frame_counterexample:
  "valid_frame [0xC8, 2, 0x14, 172] \<and>
   uint ([0xC8, 2, 0x14, 172 :: byte] ! 2) = LINK_STATISTICS \<and>
   update [0xC8, 2, 0x14, 172] init = Raised IndexError init \<and>
   link_stats (state_of (update [0xC8, 2, 0x14, 172] init)) = None"
proof -
  have b: "init\<lparr>input_buffer := []\<rparr> = init"
    by (simp add: init_def)
  have "update [0xC8, 2, 0x14, 172] init = Raised IndexError init"
    using update_loop_valid_frame [OF valid_frame_link_short,
        of "init\<lparr>input_buffer := [0xC8, 2, 0x14, 172]\<rparr>"] b
    by (simp add: update_def init_def handle_packet_def LINK_STATISTICS_def
        RC_CHANNELS_PACKED_def decode_link_stats_def getitem_def)
  then show ?thesis
    using valid_frame_link_short by (simp add: LINK_STATISTICS_def) (simp add: init_def)
qed

text \<open>
  Claim C8, amended. For every LINK_STATISTICS frame of at least 7 bytes the stored record
  is replaced wholesale with \<open>rssi1 = -frame[3]\<close>, \<open>rssi2 = -frame[4]\<close>,
  \<open>link_quality = frame[5]\<close> and \<open>snr = frame[6] - 256\<close> if \<open>frame[6] \<ge> 128\<close>, else
  \<open>frame[6]\<close>.
\<close>

theorem link_stats_decode:
  assumes "7 \<le> length frame"
  shows "handle_packet LINK_STATISTICS frame self =
     Done (self\<lparr>link_stats := Some
       \<lparr>rssi1 = - uint (frame ! 3),
        rssi2 = - uint (frame ! 4),
        link_quality = uint (frame ! 5),
        snr = (if 128 \<le> uint (frame ! 6) then uint (frame ! 6) - 256
               else uint (frame ! 6))\<rparr>\<rparr>)"
  using assms
  by (simp add: handle_packet_def LINK_STATISTICS_def RC_CHANNELS_PACKED_def
      decode_link_stats_def getitem_def not_less)

theorem link_stats_decode_witness:
  "7 \<le> length [0xC8, 6, 0x14, 50, 60, 90, 10, 64 :: byte] \<and>
   handle_packet LINK_STATISTICS [0xC8, 6, 0x14, 50, 60, 90, 10, 64] init =
     Done (init\<lparr>link_stats := Some
       \<lparr>rssi1 = - 50, rssi2 = - 60, link_quality = 90, snr = 10\<rparr>\<rparr>) \<and>
   handle_packet LINK_STATISTICS [0xC8, 6, 0x14, 50, 60, 90, 200, 77] init =
     Done (init\<lparr>link_stats := Some
       \<lparr>rssi1 = - 50, rssi2 = - 60, link_quality = 90, snr = - 56\<rparr>\<rparr>)"
  using link_stats_decode [of "[0xC8, 6, 0x14, 50, 60, 90, 10, 64]" init]
    link_stats_decode [of "[0xC8, 6, 0x14, 50, 60, 90, 200, 77]" init]
  by simp

section \<open>Rejected frames and unknown types\<close>

text \<open>
  Claim C9. A candidate frame at the head of the buffer that fails the CRC check, or that
  passes it with a type other than RC_CHANNELS_PACKED and LINK_STATISTICS, is removed from
  the buffer and nothing else happens: the loop goes on as if the buffer had held only the
  rest, and with no rest it returns, without an error, the receiver with an empty buffer
  and its channels and link statistics as they were.
\<close>

theorem rejected_or_unknown_frame_no_mutation:
  assumes "candidate_frame F" and "input_buffer self = F @ rest"
    and "validate_frame F = Inr False \<or>
         (validate_frame F = Inr True \<and> uint (F ! 2) \<noteq> RC_CHANNELS_PACKED \<and>
          uint (F ! 2) \<noteq> LINK_STATISTICS)"
  shows "update_loop self = update_loop (self\<lparr>input_buffer := rest\<rparr>) \<and>
     (rest = [] \<longrightarrow> update_loop self = Done (self\<lparr>input_buffer := []\<rparr>))"
proof -
  have "update_loop self = update_loop (self\<lparr>input_buffer := rest\<rparr>)"
    using assms(3) update_loop_frame [OF assms(1, 2)]
    by (auto simp: handle_packet_def)
  then show ?thesis
    by (simp add: update_loop_short)
qed

theorem rejected_or_unknown_frame_no_mutation_witness:
  "candidate_frame [0xC8, 9, 0x08, 0x00, 0x76, 0x00, 0x00, 0x00, 0x00, 100, 251] \<and>
   validate_frame [0xC8, 9, 0x08, 0x00, 0x76, 0x00, 0x00, 0x00, 0x00, 100, 251] = Inr True \<and>
   uint ([0xC8, 9, 0x08, 0x00, 0x76, 0x00, 0x00, 0x00, 0x00, 100, 251 :: byte] ! 2)
     \<noteq> RC_CHANNELS_PACKED \<and>
   uint ([0xC8, 9, 0x08, 0x00, 0x76, 0x00, 0x00, 0x00, 0x00, 100, 251 :: byte] ! 2)
     \<noteq> LINK_STATISTICS \<and>
   update_loop (init\<lparr>input_buffer :=
       [0xC8, 9, 0x08, 0x00, 0x76, 0x00, 0x00, 0x00, 0x00, 100, 251]\<rparr>) = Done init"
proof -
  let ?F = "[0xC8, 9, 0x08, 0x00, 0x76, 0x00, 0x00, 0x00, 0x00, 100, 251 :: byte]"
  have c: "candidate_frame ?F" and v: "validate_frame ?F = Inr True"
    using valid_frame_battery_example by (simp_all add: valid_frame_def)
  have t: "uint (?F ! 2) \<noteq> RC_CHANNELS_PACKED" "uint (?F ! 2) \<noteq> LINK_STATISTICS"
    by (simp_all add: RC_CHANNELS_PACKED_def LINK_STATISTICS_def)
  have b: "input_buffer (init\<lparr>input_buffer := ?F\<rparr>) = ?F @ []"
    by simp
  have i: "init\<lparr>input_buffer := []\<rparr> = init"
    by (simp add: init_def)
  have h: "validate_frame ?F = Inr False \<or>
      (validate_frame ?F = Inr True \<and> uint (?F ! 2) \<noteq> RC_CHANNELS_PACKED \<and>
       uint (?F ! 2) \<noteq> LINK_STATISTICS)"
    using v t by simp
  from rejected_or_unknown_frame_no_mutation [OF c b h, THEN conjunct2] i
  have "update_loop (init\<lparr>input_buffer := ?F\<rparr>) = Done init"
    by simp
  with c v t show ?thesis
    by blast
qed

end
